theory Spec2Isabelle
  imports Main "HOL-Library.Word" "HOL-Library.Multiset"
begin

section \<open>Package check: validators over ygnmi queries\<close>

text \<open>
  A shallow embedding of \<^verbatim>\<open>internal/check/check.go\<close>. The package builds
  validators (a query and a validation function) and runs them against a gNMI client,
  once (\<^verbatim>\<open>Check\<close>) or until a watched value passes (\<^verbatim>\<open>Await\<close>,
  \<^verbatim>\<open>AwaitFor\<close>, \<^verbatim>\<open>AwaitUntil\<close>).

  The libraries the package calls (ygnmi, ygot, gRPC status, go-cmp, context, time,
  fmt) are not part of the package. What the package observes of them is modelled
  here as data: the outcome of resolving a path, the text and gRPC code of an
  error, the reply of the device to a lookup and the updates of a watch.
\<close>

subsection \<open>Errors\<close>

text \<open>The gRPC status codes of \<^verbatim>\<open>google.golang.org/grpc/codes\<close>.\<close>

datatype code =
    OK | Canceled | Unknown | InvalidArgument | DeadlineExceeded | NotFound
  | AlreadyExists | PermissionDenied | ResourceExhausted | FailedPrecondition
  | Aborted | OutOfRange | Unimplemented | Internal | Unavailable | DataLoss
  | Unauthenticated

text \<open>
  A Go \<^verbatim>\<open>error\<close> value, as far as the package looks at it: its text
  (\<^verbatim>\<open>Error()\<close>, what the verb \<^verbatim>\<open>%v\<close> prints), whether it carries a
  gRPC status (a method \<^verbatim>\<open>GRPCStatus()\<close>), and what it wraps
  (\<^verbatim>\<open>Unwrap()\<close>). \<open>Continue\<close> is the sentinel \<^verbatim>\<open>ygnmi.Continue\<close>.
\<close>

datatype error =
    Continue
  | ErrorString string
  | StatusError code string
  | WrapError string error

fun error_text :: "error \<Rightarrow> string" where
  "error_text Continue = ''condition not true''"
| "error_text (ErrorString s) = s"
| "error_text (StatusError c s) = s"
| "error_text (WrapError s e) = s"

text \<open>
  \<^verbatim>\<open>errors.As(err, &stat)\<close> for the interface with the method
  \<^verbatim>\<open>GRPCStatus()\<close>: the code of the first error of the chain that has a status.
\<close>

fun errors_As_GRPCStatus :: "error \<Rightarrow> code option" where
  "errors_As_GRPCStatus Continue = None"
| "errors_As_GRPCStatus (ErrorString s) = None"
| "errors_As_GRPCStatus (StatusError c s) = Some c"
| "errors_As_GRPCStatus (WrapError s e) = errors_As_GRPCStatus e"

text \<open>\<^verbatim>\<open>errors.Is(err, ygnmi.Continue)\<close>: the sentinel is somewhere in the chain.\<close>

fun errors_Is_Continue :: "error \<Rightarrow> bool" where
  "errors_Is_Continue Continue = True"
| "errors_Is_Continue (ErrorString s) = False"
| "errors_Is_Continue (StatusError c s) = False"
| "errors_Is_Continue (WrapError s e) = errors_Is_Continue e"

text \<open>\<^verbatim>\<open>isTimeout\<close>; \<open>None\<close> is the nil error.\<close>

definition isTimeout :: "error option \<Rightarrow> bool" where
  "isTimeout err =
     (case err of
        None \<Rightarrow> False
      | Some e \<Rightarrow>
          (case errors_As_GRPCStatus e of
             Some c \<Rightarrow> c = DeadlineExceeded
           | None \<Rightarrow> False))"

subsection \<open>Paths and values\<close>

text \<open>
  A \<^verbatim>\<open>ygnmi.PathStruct\<close>, by what \<^verbatim>\<open>ygnmi.ResolvePath\<close> and
  \<^verbatim>\<open>ygot.PathToString\<close> make of it: the first fails, or the second fails, or the
  path has a string. A nil path struct is \<open>None\<close>.
\<close>

datatype PathStruct =
    ResolvePathFails error
  | PathToStringFails error
  | PathString string

fun FormatPath :: "PathStruct option \<Rightarrow> string" where
  "FormatPath None = ''<nil path>''"
| "FormatPath (Some (ResolvePathFails err)) = ''<Unprintable path: '' @ error_text err @ ''>''"
| "FormatPath (Some (PathToStringFails err)) = ''<Unprintable path: '' @ error_text err @ ''>''"
| "FormatPath (Some (PathString str)) = str"

text \<open>
  A \<^verbatim>\<open>ygnmi.Value[T]\<close>: \<^verbatim>\<open>Val()\<close> returns the value and whether it is
  present, \<^verbatim>\<open>IsPresent()\<close> the latter alone. An absent value still has a field
  \<open>val\<close> (Go's zero value).
\<close>

record 'a Value =
  val :: 'a
  present :: bool

definition Val :: "'a Value \<Rightarrow> 'a \<times> bool" where
  "Val v = (val v, present v)"

definition IsPresent :: "'a Value \<Rightarrow> bool" where
  "IsPresent v = present v"

text \<open>
  \<^verbatim>\<open>FormatValue\<close> takes a pointer, \<open>None\<close> being nil. Its first argument is
  the rendering of a \<open>'a\<close> by the verb \<^verbatim>\<open>%#v\<close> of \<^verbatim>\<open>fmt\<close>.
\<close>

definition FormatValue :: "('a \<Rightarrow> string) \<Rightarrow> 'a Value option \<Rightarrow> string" where
  "FormatValue goSyntax v =
     (case v of
        None \<Rightarrow> ''nil''
      | Some w \<Rightarrow>
          (case Val w of (x, pres) \<Rightarrow>
             if \<not> pres then ''no value'' else goSyntax x))"

text \<open>A \<^verbatim>\<open>ygnmi.SingletonQuery[T]\<close>, of which the package reads the path struct only.\<close>

record SingletonQuery =
  pathStruct :: "PathStruct option"

subsection \<open>Validation errors\<close>

record validationError =
  query :: SingletonQuery
  validationErr :: "error option"
  failureCause :: "error option"

definition qStr :: "validationError \<Rightarrow> string" where
  "qStr f = FormatPath (pathStruct (validationError.query f))"

definition Error :: "validationError \<Rightarrow> string" where
  "Error f =
     (if isTimeout (failureCause f) then
        (case validationErr f of
           Some ve \<Rightarrow> qStr f @ '': '' @ error_text ve @ '' (deadline exceeded)''
         | None \<Rightarrow> qStr f @ '': deadline exceeded before any values were fetched'')
      else
        (case failureCause f of
           Some fc \<Rightarrow> qStr f @ '': '' @ error_text fc
         | None \<Rightarrow>
             (case validationErr f of
                Some ve \<Rightarrow> qStr f @ '': '' @ error_text ve
              | None \<Rightarrow> qStr f @ '': unknown error'')))"

subsection \<open>The client\<close>

text \<open>
  Instants of \<^verbatim>\<open>time.Time\<close> are nanoseconds on one clock, and
  \<^verbatim>\<open>Before\<close> is the strict order on them. A \<^verbatim>\<open>time.Duration\<close> is a
  signed 64-bit count of nanoseconds.
\<close>

type_synonym Time = int

type_synonym Duration = "64 word"

definition Before :: "Time \<Rightarrow> Time \<Rightarrow> bool" where
  "Before t u = (t < u)"

definition Add :: "Time \<Rightarrow> Duration \<Rightarrow> Time" where
  "Add t d = t + sint d"

text \<open>
  The contexts the package builds: the background context, and a context with a
  deadline derived from a parent. \<^verbatim>\<open>context.WithTimeout\<close> reads the clock; the
  reading is its argument \<open>now\<close>.
\<close>

datatype "context" = Background | WithDeadline "context" Time

definition WithTimeout :: "context \<Rightarrow> Time \<Rightarrow> Duration \<Rightarrow> context" where
  "WithTimeout parent now timeout = WithDeadline parent (Add now timeout)"

text \<open>
  The calls a validator makes, in order: the log that every operation below returns
  next to its result. A call of the validation function is logged with the value it was
  given and with the values on which it invoked its predicate in turn.
\<close>

datatype 'a call =
    LookupCall
  | WatchCall "context"
  | ValidationFnCall "'a Value" "'a list"

text \<open>
  A \<^verbatim>\<open>ygnmi.Client\<close> with the device behind it: what a lookup of a query
  returns, and what a watch of a query under a context delivers, a finite run of values
  and then the error that ends the stream; \<open>None\<close> for a stream that goes silent and
  never ends.
\<close>

record 'a Client =
  lookup_reply :: "context \<Rightarrow> SingletonQuery \<Rightarrow> error + 'a Value"
  watch_stream :: "context \<Rightarrow> SingletonQuery \<Rightarrow> 'a Value list \<times> error option"

definition Lookup :: "context \<Rightarrow> 'a Client \<Rightarrow> SingletonQuery \<Rightarrow> error + 'a Value" where
  "Lookup ctx client q = lookup_reply client ctx q"

text \<open>
  Modelled from the spec: \<^verbatim>\<open>ygnmi.Watch\<close> and the \<^verbatim>\<open>Await\<close> of the
  watcher it returns, which are code of the ygnmi library. The callback is invoked on
  each value as it arrives; when it returns nil the watch stops with success, when it
  returns \<^verbatim>\<open>ygnmi.Continue\<close> the watch goes on, and any other error stops the
  watch with that error; the stream's own end stops the watch with the stream's error.
  The callback is a closure over variables of its caller: \<open>'s\<close> is their state.
  The result is \<open>None\<close> when the watcher never returns, \<open>Some None\<close> when it returns
  a nil error, \<open>Some (Some err)\<close> when it returns \<open>err\<close>.
\<close>

fun watcher_Await ::
  "('a Value \<Rightarrow> 's \<Rightarrow> error option \<times> 's) \<Rightarrow> 'a Value list \<Rightarrow> error option \<Rightarrow> 's
     \<Rightarrow> error option option \<times> 's" where
  "watcher_Await pred [] ending s =
     (case ending of
        None \<Rightarrow> (None, s)
      | Some err \<Rightarrow> (Some (Some err), s))"
| "watcher_Await pred (v # vs) ending s =
     (case pred v s of
        (None, s') \<Rightarrow> (Some None, s')
      | (Some err, s') \<Rightarrow>
          if errors_Is_Continue err then watcher_Await pred vs ending s'
          else (Some (Some err), s'))"

definition Watch ::
  "context \<Rightarrow> 'a Client \<Rightarrow> SingletonQuery \<Rightarrow> ('a Value \<Rightarrow> 's \<Rightarrow> error option \<times> 's) \<Rightarrow> 's
     \<Rightarrow> error option option \<times> 's" where
  "Watch ctx client q pred s =
     (case watch_stream client ctx q of
        (vs, ending) \<Rightarrow> watcher_Await pred vs ending s)"

subsection \<open>Validators\<close>

text \<open>
  A validation function returns its error, nil being \<open>None\<close>, and the values on which
  it invoked a predicate function, in order. It is given a pointer to a value;
  \<^verbatim>\<open>ygnmi.Lookup\<close> and \<^verbatim>\<open>ygnmi.Watch\<close> never hand it a nil pointer, and
  the model gives it the value.
\<close>

record 'a validation =
  query :: SingletonQuery
  validationFn :: "'a Value \<Rightarrow> error option \<times> 'a list"

definition Path :: "'a validation \<Rightarrow> string" where
  "Path vd = FormatPath (pathStruct (validation.query vd))"

text \<open>
  \<^verbatim>\<open>Check\<close> returns the error (of dynamic type \<^verbatim>\<open>*validationError[T]\<close>
  whenever it is not nil) and the log of its calls.
\<close>

definition Check :: "'a validation \<Rightarrow> 'a Client \<Rightarrow> validationError option \<times> 'a call list" where
  "Check vd client =
     (case Lookup Background client (validation.query vd) of
        Inl err \<Rightarrow>
          (Some \<lparr>validationError.query = validation.query vd,
                 validationErr = None,
                 failureCause = Some err\<rparr>,
           [LookupCall])
      | Inr lastVal \<Rightarrow>
          (case validationFn vd lastVal of
             (Some err, calls) \<Rightarrow>
               (Some \<lparr>validationError.query = validation.query vd,
                      validationErr = Some err,
                      failureCause = None\<rparr>,
                [LookupCall, ValidationFnCall lastVal calls])
           | (None, calls) \<Rightarrow>
               (None, [LookupCall, ValidationFnCall lastVal calls])))"

text \<open>
  The callback \<^verbatim>\<open>Await\<close> hands to the watch. It assigns the variable
  \<^verbatim>\<open>lastInvalid\<close> of \<^verbatim>\<open>Await\<close>; the state is that variable and the log.
\<close>

definition Await_callback ::
  "'a validation \<Rightarrow> 'a Value \<Rightarrow> error option \<times> 'a call list
     \<Rightarrow> error option \<times> (error option \<times> 'a call list)" where
  "Await_callback vd v st =
     (case st of (lastInvalid, log) \<Rightarrow>
        (case validationFn vd v of (lastInvalid', calls) \<Rightarrow>
           if lastInvalid' \<noteq> None
           then (Some Continue, (lastInvalid', log @ [ValidationFnCall v calls]))
           else (None, (lastInvalid', log @ [ValidationFnCall v calls]))))"

text \<open>
  \<^verbatim>\<open>Await\<close>. The result is \<open>None\<close> when the call never returns, and otherwise
  the returned error. \<^verbatim>\<open>errors.As(err, &checkErr)\<close> succeeds on every error of
  \<^verbatim>\<open>Check\<close>, which are all of type \<^verbatim>\<open>*validationError[T]\<close>.
\<close>

definition Await ::
  "'a validation \<Rightarrow> context \<Rightarrow> 'a Client \<Rightarrow> validationError option option \<times> 'a call list" where
  "Await vd ctx client =
     (case Check vd client of (err, log) \<Rightarrow>
        (case err of
           None \<Rightarrow> (Some err, log)
         | Some checkErr \<Rightarrow>
             if failureCause checkErr \<noteq> None then (Some err, log)
             else
               (case Watch ctx client (validation.query vd) (Await_callback vd)
                       (validationErr checkErr, log @ [WatchCall ctx]) of
                  (None, (lastInvalid, log')) \<Rightarrow> (None, log')
                | (Some (Some werr), (lastInvalid, log')) \<Rightarrow>
                    (let failed = \<lparr>validationError.query = validation.query vd,
                                    validationErr = None,
                                    failureCause = Some werr\<rparr>;
                         failed = (if lastInvalid \<noteq> None
                                   then failed\<lparr>validationErr := lastInvalid\<rparr>
                                   else failed)
                     in (Some (Some failed), log'))
                | (Some None, (lastInvalid, log')) \<Rightarrow> (Some None, log'))))"

text \<open>A call that returns: the result of \<^verbatim>\<open>Check\<close> as a result of an await.\<close>

definition returned ::
  "validationError option \<times> 'a call list \<Rightarrow> validationError option option \<times> 'a call list" where
  "returned r = (Some (fst r), snd r)"

text \<open>
  \<^verbatim>\<open>AwaitFor\<close>; \<open>now\<close> is the clock as \<^verbatim>\<open>context.WithTimeout\<close> reads it.
\<close>

definition AwaitFor ::
  "'a validation \<Rightarrow> Time \<Rightarrow> Duration \<Rightarrow> 'a Client
     \<Rightarrow> validationError option option \<times> 'a call list" where
  "AwaitFor vd now timeout client =
     (if sint timeout \<le> 0 then returned (Check vd client)
      else Await vd (WithTimeout Background now timeout) client)"

text \<open>
  \<^verbatim>\<open>AwaitUntil\<close>; \<open>now\<close> is the value of \<^verbatim>\<open>time.Now()\<close>.
\<close>

definition AwaitUntil ::
  "'a validation \<Rightarrow> Time \<Rightarrow> Time \<Rightarrow> 'a Client
     \<Rightarrow> validationError option option \<times> 'a call list" where
  "AwaitUntil vd now deadline client =
     (if Before deadline now then returned (Check vd client)
      else Await vd (WithDeadline Background deadline) client)"

subsection \<open>Building validators\<close>

definition Validate ::
  "SingletonQuery \<Rightarrow> ('a Value \<Rightarrow> error option \<times> 'a list) \<Rightarrow> 'a validation" where
  "Validate q fn = \<lparr>validation.query = q, validationFn = fn\<rparr>"

text \<open>
  \<^verbatim>\<open>Predicate\<close>. The condition \<^verbatim>\<open>!present || !predicate(got)\<close> invokes
  the predicate only when the value is present. The first argument renders a value as
  the verb \<^verbatim>\<open>%#v\<close> does, here and in the constructors below.
\<close>

definition Predicate ::
  "('a \<Rightarrow> string) \<Rightarrow> SingletonQuery \<Rightarrow> string \<Rightarrow> ('a \<Rightarrow> bool) \<Rightarrow> 'a validation" where
  "Predicate goSyntax q wantMsg predicate =
     Validate q (\<lambda>vgot.
       case Val vgot of (got, pres) \<Rightarrow>
         if \<not> pres then
           (Some (ErrorString (''got '' @ FormatValue goSyntax (Some vgot) @ '', '' @ wantMsg)),
            [])
         else if \<not> predicate got then
           (Some (ErrorString (''got '' @ FormatValue goSyntax (Some vgot) @ '', '' @ wantMsg)),
            [got])
         else (None, [got]))"

text \<open>
  \<^verbatim>\<open>reflect.DeepEqual\<close> of Go's standard library, on values of one type:
  equality of the values' whole content. The values meant are plain data: on a
  floating-point NaN and on a function value the library's relation is not reflexive,
  and it tells a nil slice from an empty one, which equality here does not.
\<close>

definition DeepEqual :: "'a \<Rightarrow> 'a \<Rightarrow> bool" where
  "DeepEqual x y = (x = y)"

definition Equal :: "('a \<Rightarrow> string) \<Rightarrow> SingletonQuery \<Rightarrow> 'a \<Rightarrow> 'a validation" where
  "Equal goSyntax q want =
     Predicate goSyntax q (''want '' @ goSyntax want) (\<lambda>got. DeepEqual got want)"

definition NotEqual :: "('a \<Rightarrow> string) \<Rightarrow> SingletonQuery \<Rightarrow> 'a \<Rightarrow> 'a validation" where
  "NotEqual goSyntax q wantNot =
     Predicate goSyntax q (''want anything but '' @ goSyntax wantNot)
       (\<lambda>got. \<not> DeepEqual got wantNot)"

definition EqualOrNil :: "('a \<Rightarrow> string) \<Rightarrow> SingletonQuery \<Rightarrow> 'a \<Rightarrow> 'a validation" where
  "EqualOrNil goSyntax q want =
     Validate q (\<lambda>vgot.
       case Val vgot of (got, pres) \<Rightarrow>
         if pres \<and> \<not> DeepEqual got want then
           (Some (ErrorString (''got '' @ FormatValue goSyntax (Some vgot) @ '', want ''
                               @ goSyntax want @ '' or no value'')),
            [])
         else (None, []))"

definition Present :: "('a \<Rightarrow> string) \<Rightarrow> SingletonQuery \<Rightarrow> 'a validation" where
  "Present goSyntax q = Predicate goSyntax q ''want any value'' (\<lambda>_. True)"

definition NotPresent :: "('a \<Rightarrow> string) \<Rightarrow> SingletonQuery \<Rightarrow> 'a validation" where
  "NotPresent goSyntax q =
     Validate q (\<lambda>vgot.
       if IsPresent vgot then
         (Some (ErrorString (''got '' @ FormatValue goSyntax (Some vgot) @ '', want no value'')),
          [])
       else (None, []))"

text \<open>
  Modelled from the spec: \<^verbatim>\<open>cmp.Equal\<close> under the option
  \<^verbatim>\<open>cmpopts.SortSlices(less)\<close>, which is code of the go-cmp library. Two
  sequences are equal under it when they are equal once both are sorted by the less function.
  The sort is stable: of two elements neither of which is less than the other, the one
  that came first stays first. Slices are lists here, so a nil slice and an empty one
  are the same sequence.
\<close>

fun sort_insert :: "('a \<Rightarrow> 'a \<Rightarrow> bool) \<Rightarrow> 'a \<Rightarrow> 'a list \<Rightarrow> 'a list" where
  "sort_insert lessFn x [] = [x]"
| "sort_insert lessFn x (y # ys) =
     (if lessFn y x then y # sort_insert lessFn x ys else x # y # ys)"

fun SortSlices :: "('a \<Rightarrow> 'a \<Rightarrow> bool) \<Rightarrow> 'a list \<Rightarrow> 'a list" where
  "SortSlices lessFn [] = []"
| "SortSlices lessFn (x # xs) = sort_insert lessFn x (SortSlices lessFn xs)"

definition cmp_Equal_SortSlices :: "('a \<Rightarrow> 'a \<Rightarrow> bool) \<Rightarrow> 'a list \<Rightarrow> 'a list \<Rightarrow> bool" where
  "cmp_Equal_SortSlices lessFn x y = (SortSlices lessFn x = SortSlices lessFn y)"

definition UnorderedEqual ::
  "('a list \<Rightarrow> string) \<Rightarrow> SingletonQuery \<Rightarrow> 'a list \<Rightarrow> ('a \<Rightarrow> 'a \<Rightarrow> bool)
     \<Rightarrow> 'a list validation" where
  "UnorderedEqual goSyntax q want lessFn =
     Predicate goSyntax q (''want '' @ goSyntax want)
       (\<lambda>got. cmp_Equal_SortSlices lessFn got want)"

text \<open>
  A strict ordering is irreflexive and transitive. A strict total order moreover
  compares any two different elements.
\<close>

definition strict_ordering :: "('a \<Rightarrow> 'a \<Rightarrow> bool) \<Rightarrow> bool" where
  "strict_ordering lessFn =
     ((\<forall>x. \<not> lessFn x x) \<and>
      (\<forall>x y z. lessFn x y \<and> lessFn y z \<longrightarrow> lessFn x z))"

definition strict_total_order :: "('a \<Rightarrow> 'a \<Rightarrow> bool) \<Rightarrow> bool" where
  "strict_total_order lessFn =
     ((\<forall>x. \<not> lessFn x x) \<and>
      (\<forall>x y z. lessFn x y \<and> lessFn y z \<longrightarrow> lessFn x z) \<and>
      (\<forall>x y. x = y \<or> lessFn x y \<or> lessFn y x))"

subsection \<open>Vocabulary of the properties\<close>

text \<open>
  A value passes a validator when the validation function returns nil on it; the log
  entry of one call of the validation function.
\<close>

definition passes :: "'a validation \<Rightarrow> 'a Value \<Rightarrow> bool" where
  "passes vd v = (fst (validationFn vd v) = None)"

definition logged :: "'a validation \<Rightarrow> 'a Value \<Rightarrow> 'a call" where
  "logged vd v = ValidationFnCall v (snd (validationFn vd v))"

section \<open>Properties\<close>

subsection \<open>The message of a validation error\<close>

text \<open>
  Claim C5. The message of a validation error is chosen in this order: when the failure
  cause is a timeout, it is the path with the validation error and the suffix
  "(deadline exceeded)" if there is a validation error, and the path with "deadline
  exceeded before any values were fetched" if there is none; otherwise the path with
  the failure cause, if there is one; otherwise the path with the validation error, if
  there is one; otherwise the path with "unknown error".
\<close>

theorem Error_priority:
  "Error f =
     (if isTimeout (failureCause f) \<and> validationErr f \<noteq> None then
        qStr f @ '': '' @ error_text (the (validationErr f)) @ '' (deadline exceeded)''
      else if isTimeout (failureCause f) then
        qStr f @ '': deadline exceeded before any values were fetched''
      else if failureCause f \<noteq> None then
        qStr f @ '': '' @ error_text (the (failureCause f))
      else if validationErr f \<noteq> None then
        qStr f @ '': '' @ error_text (the (validationErr f))
      else qStr f @ '': unknown error'')"
  by (simp add: Error_def split: option.splits)

subsection \<open>The validation functions of the constructors\<close>

lemma validationFn_Validate [simp]: "validationFn (Validate q fn) = fn"
  by (simp add: Validate_def)

lemma query_Validate [simp]: "validation.query (Validate q fn) = q"
  by (simp add: Validate_def)

lemma Predicate_fn:
  "validationFn (Predicate g q wantMsg predicate) v =
     (if \<not> present v then
        (Some (ErrorString (''got '' @ FormatValue g (Some v) @ '', '' @ wantMsg)), [])
      else if \<not> predicate (val v) then
        (Some (ErrorString (''got '' @ FormatValue g (Some v) @ '', '' @ wantMsg)), [val v])
      else (None, [val v]))"
  by (simp add: Predicate_def Val_def)

lemma query_Predicate: "validation.query (Predicate g q wantMsg predicate) = q"
  by (simp add: Predicate_def)

subsection \<open>Check\<close>

lemma Check_eq:
  "Check vd client =
     (case Lookup Background client (validation.query vd) of
        Inl err \<Rightarrow>
          (Some \<lparr>validationError.query = validation.query vd,
                 validationErr = None, failureCause = Some err\<rparr>,
           [LookupCall])
      | Inr v \<Rightarrow>
          (if passes vd v then (None, [LookupCall, logged vd v])
           else (Some \<lparr>validationError.query = validation.query vd,
                       validationErr = fst (validationFn vd v), failureCause = None\<rparr>,
                 [LookupCall, logged vd v])))"
  by (auto simp add: Check_def passes_def logged_def split: sum.splits prod.splits option.splits)

lemma Check_log_no_watch: "WatchCall c \<notin> set (snd (Check vd client))"
  by (simp add: Check_def split: sum.splits prod.splits option.splits)

lemma Check_error_shape:
  assumes "fst (Check vd client) = Some ce"
  shows "(failureCause ce = None \<and> validationErr ce \<noteq> None) \<or>
         (\<exists>err. Lookup Background client (validation.query vd) = Inl err \<and>
                failureCause ce = Some err \<and> validationErr ce = None)"
  using assms
  by (cases "Lookup Background client (validation.query vd)")
     (auto simp add: Check_eq passes_def split: if_splits)

text \<open>
  Claim C2. Check makes exactly one lookup. When the lookup fails, Check returns a
  validation error with the failure cause alone, and its log is the lookup alone: the
  validation function was not invoked. When the lookup succeeds and the validation
  function returns an error, Check returns a validation error with the validation
  error alone; when the validation function returns nil, Check returns nil. So an error
  of Check has exactly one of the two causes.
\<close>

theorem Check_one_fetch:
  "count_list (snd (Check vd client)) LookupCall = 1 \<and>
   (\<forall>err. Lookup Background client (validation.query vd) = Inl err \<longrightarrow>
      Check vd client =
        (Some \<lparr>validationError.query = validation.query vd,
               validationErr = None, failureCause = Some err\<rparr>,
         [LookupCall])) \<and>
   (\<forall>v err. Lookup Background client (validation.query vd) = Inr v \<and>
        fst (validationFn vd v) = Some err \<longrightarrow>
      Check vd client =
        (Some \<lparr>validationError.query = validation.query vd,
               validationErr = Some err, failureCause = None\<rparr>,
         [LookupCall, logged vd v])) \<and>
   (\<forall>v. Lookup Background client (validation.query vd) = Inr v \<and>
        fst (validationFn vd v) = None \<longrightarrow>
      Check vd client = (None, [LookupCall, logged vd v])) \<and>
   (\<forall>e. fst (Check vd client) = Some e \<longrightarrow>
      (validationErr e = None) \<noteq> (failureCause e = None))"
  by (cases "Lookup Background client (validation.query vd)")
     (auto simp add: Check_eq passes_def logged_def)

theorem Check_one_fetch_witness:
  "Check (Equal (\<lambda>b. if b then ''true'' else ''false'') \<lparr>pathStruct = Some (PathString ''/up'')\<rparr> True)
     \<lparr>lookup_reply = (\<lambda>ctx q. Inl (StatusError Unavailable ''unavailable'')),
      watch_stream = (\<lambda>ctx q. ([], None))\<rparr> =
     (Some \<lparr>validationError.query = \<lparr>pathStruct = Some (PathString ''/up'')\<rparr>,
            validationErr = None,
            failureCause = Some (StatusError Unavailable ''unavailable'')\<rparr>,
      [LookupCall]) \<and>
   Check (Equal (\<lambda>b. if b then ''true'' else ''false'') \<lparr>pathStruct = Some (PathString ''/up'')\<rparr> True)
     \<lparr>lookup_reply = (\<lambda>ctx q. Inr \<lparr>val = False, present = True\<rparr>),
      watch_stream = (\<lambda>ctx q. ([], None))\<rparr> =
     (Some \<lparr>validationError.query = \<lparr>pathStruct = Some (PathString ''/up'')\<rparr>,
            validationErr = Some (ErrorString ''got false, want true''),
            failureCause = None\<rparr>,
      [LookupCall, ValidationFnCall \<lparr>val = False, present = True\<rparr> [False]]) \<and>
   Check (Equal (\<lambda>b. if b then ''true'' else ''false'') \<lparr>pathStruct = Some (PathString ''/up'')\<rparr> False)
     \<lparr>lookup_reply = (\<lambda>ctx q. Inr \<lparr>val = False, present = True\<rparr>),
      watch_stream = (\<lambda>ctx q. ([], None))\<rparr> =
     (None, [LookupCall, ValidationFnCall \<lparr>val = False, present = True\<rparr> [False]])"
proof (intro conjI)
  let ?g = "\<lambda>b. if b then ''true'' else ''false''"
  let ?q = "\<lparr>pathStruct = Some (PathString ''/up'')\<rparr>"
  let ?down = "\<lparr>lookup_reply = (\<lambda>ctx q. Inl (StatusError Unavailable ''unavailable'')),
                watch_stream = (\<lambda>ctx q. ([], None))\<rparr> :: bool Client"
  let ?wrong = "\<lparr>lookup_reply = (\<lambda>ctx q. Inr \<lparr>val = False, present = True\<rparr>),
                 watch_stream = (\<lambda>ctx q. ([], None))\<rparr> :: bool Client"
  show "Check (Equal ?g ?q True) ?down =
     (Some \<lparr>validationError.query = ?q, validationErr = None,
            failureCause = Some (StatusError Unavailable ''unavailable'')\<rparr>,
      [LookupCall])"
    using Check_one_fetch [of "Equal ?g ?q True" ?down]
    by (simp add: Lookup_def Equal_def query_Predicate)
  show "Check (Equal ?g ?q True) ?wrong =
     (Some \<lparr>validationError.query = ?q,
            validationErr = Some (ErrorString ''got false, want true''),
            failureCause = None\<rparr>,
      [LookupCall, ValidationFnCall \<lparr>val = False, present = True\<rparr> [False]])"
    using Check_one_fetch [of "Equal ?g ?q True" ?wrong]
    by (simp add: Lookup_def Equal_def Predicate_fn query_Predicate logged_def
          DeepEqual_def FormatValue_def Val_def)
  show "Check (Equal ?g ?q False) ?wrong =
     (None, [LookupCall, ValidationFnCall \<lparr>val = False, present = True\<rparr> [False]])"
    using Check_one_fetch [of "Equal ?g ?q False" ?wrong]
    by (simp add: Lookup_def Equal_def Predicate_fn query_Predicate logged_def
          DeepEqual_def FormatValue_def Val_def)
qed

subsection \<open>Await\<close>

lemma Await_callback_step:
  "Await_callback vd v (li, log) =
     (if passes vd v then (None, (None, log @ [logged vd v]))
      else (Some Continue, (fst (validationFn vd v), log @ [logged vd v])))"
  by (cases "validationFn vd v") (simp add: Await_callback_def passes_def logged_def)

text \<open>
  The watch under the callback of Await, by the first value of the stream that passes:
  without one the watch ends as the stream does, and the last invalid record is the one
  of the last value delivered (or the initial one, when nothing was delivered); with one
  it stops there with success.
\<close>

lemma watcher_Await_callback:
  "watcher_Await (Await_callback vd) vs ending (li, log) =
     (case dropWhile (\<lambda>v. \<not> passes vd v) vs of
        [] \<Rightarrow>
          ((case ending of None \<Rightarrow> None | Some err \<Rightarrow> Some (Some err)),
           (if vs = [] then li else fst (validationFn vd (last vs))),
           log @ map (logged vd) vs)
      | v # rest \<Rightarrow>
          (Some None, None,
           log @ map (logged vd) (takeWhile (\<lambda>v. \<not> passes vd v) vs @ [v])))"
proof (induction vs arbitrary: li log)
  case Nil
  show ?case by (simp split: option.splits)
next
  case (Cons v vs)
  show ?case
  proof (cases "passes vd v")
    case True
    then show ?thesis
      by (simp add: Await_callback_step)
  next
    case False
    show ?thesis
    proof (cases "dropWhile (\<lambda>v. \<not> passes vd v) vs")
      case Nil
      with False show ?thesis
        by (simp add: Await_callback_step Cons.IH del: dropWhile_eq_Nil_conv)
    next
      case (Cons w ws)
      with False show ?thesis
        by (simp add: Await_callback_step Cons.IH)
    qed
  qed
qed

lemma Await_eq:
  "Await vd ctx client =
     (case Check vd client of (err, log) \<Rightarrow>
        (case err of
           None \<Rightarrow> (Some None, log)
         | Some checkErr \<Rightarrow>
             if failureCause checkErr \<noteq> None then (Some err, log)
             else
               (case watch_stream client ctx (validation.query vd) of (vs, ending) \<Rightarrow>
                  (case dropWhile (\<lambda>v. \<not> passes vd v) vs of
                     [] \<Rightarrow>
                       (case ending of
                          None \<Rightarrow> (None, log @ WatchCall ctx # map (logged vd) vs)
                        | Some werr \<Rightarrow>
                            (Some (Some \<lparr>validationError.query = validation.query vd,
                                         validationErr =
                                           (if vs = [] then validationErr checkErr
                                            else fst (validationFn vd (last vs))),
                                         failureCause = Some werr\<rparr>),
                             log @ WatchCall ctx # map (logged vd) vs))
                   | v # rest \<Rightarrow>
                       (Some None,
                        log @ WatchCall ctx #
                          map (logged vd) (takeWhile (\<lambda>v. \<not> passes vd v) vs @ [v]))))))"
proof -
  obtain err log where chk: "Check vd client = (err, log)"
    by (cases "Check vd client")
  obtain vs ending where ws: "watch_stream client ctx (validation.query vd) = (vs, ending)"
    by (cases "watch_stream client ctx (validation.query vd)")
  show ?thesis
  proof (cases err)
    case None
    with chk show ?thesis by (simp add: Await_def)
  next
    case (Some checkErr)
    show ?thesis
    proof (cases "failureCause checkErr \<noteq> None")
      case True
      with chk Some show ?thesis by (simp add: Await_def)
    next
      case False
      show ?thesis
      proof (cases "dropWhile (\<lambda>v. \<not> passes vd v) vs")
        case Nil
        have "vs \<noteq> [] \<Longrightarrow> \<not> passes vd (last vs)"
          using Nil by simp
        then have "vs \<noteq> [] \<Longrightarrow> fst (validationFn vd (last vs)) \<noteq> None"
          by (simp add: passes_def)
        with chk Some False ws Nil show ?thesis
          by (cases ending)
            (auto simp add: Await_def Watch_def watcher_Await_callback Let_def
               simp del: dropWhile_eq_Nil_conv)
      next
        case (Cons w rest)
        with chk Some False ws show ?thesis
          by (simp add: Await_def Watch_def watcher_Await_callback)
      qed
    qed
  qed
qed

lemma Await_error_shape:
  assumes aw: "fst (Await vd ctx client) = Some (Some e)"
  shows "(fst (Check vd client) = Some e \<and> failureCause e \<noteq> None) \<or>
         (\<exists>ce. fst (Check vd client) = Some ce \<and> failureCause ce = None \<and>
               failureCause e \<noteq> None \<and> validationErr e \<noteq> None)"
proof -
  obtain err log where chk: "Check vd client = (err, log)"
    by (cases "Check vd client")
  obtain vs ending where ws: "watch_stream client ctx (validation.query vd) = (vs, ending)"
    by (cases "watch_stream client ctx (validation.query vd)")
  show ?thesis
  proof (cases err)
    case None
    with chk aw show ?thesis by (simp add: Await_eq)
  next
    case (Some ce)
    show ?thesis
    proof (cases "failureCause ce \<noteq> None")
      case True
      with chk Some aw show ?thesis by (simp add: Await_eq)
    next
      case False
      with chk Some have ve: "validationErr ce \<noteq> None"
        using Check_error_shape [of vd client ce] by auto
      show ?thesis
      proof (cases "dropWhile (\<lambda>v. \<not> passes vd v) vs")
        case Nil
        have "vs \<noteq> [] \<Longrightarrow> \<not> passes vd (last vs)"
          using Nil by simp
        then have lastv: "vs \<noteq> [] \<Longrightarrow> fst (validationFn vd (last vs)) \<noteq> None"
          by (simp add: passes_def)
        from chk Some False ws Nil aw obtain werr where
          e: "e = \<lparr>validationError.query = validation.query vd,
                   validationErr = (if vs = [] then validationErr ce
                                    else fst (validationFn vd (last vs))),
                   failureCause = Some werr\<rparr>"
          by (cases ending) (auto simp add: Await_eq simp del: dropWhile_eq_Nil_conv)
        from e ve lastv have "failureCause e \<noteq> None \<and> validationErr e \<noteq> None"
          by (cases "vs = []") simp_all
        with chk Some False show ?thesis by simp
      next
        case (Cons w rest)
        with chk Some False ws aw show ?thesis
          by (simp add: Await_eq)
      qed
    qed
  qed
qed

text \<open>
  Await returns unless it is in the watch, no value of the stream passes, and the
  stream goes silent without ending.
\<close>

lemma Await_never_returns_iff:
  "(fst (Await vd ctx client) = None) =
     (\<exists>ce. fst (Check vd client) = Some ce \<and> failureCause ce = None \<and>
        (\<forall>v\<in>set (fst (watch_stream client ctx (validation.query vd))). \<not> passes vd v) \<and>
        snd (watch_stream client ctx (validation.query vd)) = None)"
proof -
  obtain err log where chk: "Check vd client = (err, log)"
    by (cases "Check vd client")
  obtain vs ending where ws: "watch_stream client ctx (validation.query vd) = (vs, ending)"
    by (cases "watch_stream client ctx (validation.query vd)")
  show ?thesis
  proof (cases "dropWhile (\<lambda>v. \<not> passes vd v) vs")
    case Nil
    then have "\<forall>v\<in>set vs. \<not> passes vd v" by simp
    with chk ws Nil show ?thesis
      by (auto simp add: Await_eq simp del: dropWhile_eq_Nil_conv split: option.splits)
  next
    case (Cons w rest)
    then have "\<not> (\<forall>v\<in>set vs. \<not> passes vd v)"
      by (metis dropWhile_eq_Nil_conv list.distinct(1))
    with chk ws Cons show ?thesis
      by (auto simp add: Await_eq split: option.splits)
  qed
qed

text \<open>
  Claim C1. Await first calls Check. When Check returns nil, or an error whose failure
  cause is set, Await returns that result with the log of Check, in which no watch is
  opened. Otherwise it opens a watch and applies the validation function to the values
  in turn: at the first value that passes it returns nil, having applied the validation
  function to the values up to that one and to no later one; when no value passes and
  the stream ends with an error, it returns a validation error whose failure cause is
  that error and whose validation error is the one of the last value delivered, or the
  one of Check when nothing was delivered.
\<close>

theorem Await_behaviour:
  assumes chk: "Check vd client = (err, log)"
    and ws: "watch_stream client ctx (validation.query vd) = (vs, ending)"
  shows
   "(err = None \<longrightarrow>
       Await vd ctx client = (Some None, log) \<and> (\<forall>c. WatchCall c \<notin> set log)) \<and>
    (\<forall>ce. err = Some ce \<and> failureCause ce \<noteq> None \<longrightarrow>
       Await vd ctx client = (Some (Some ce), log) \<and> (\<forall>c. WatchCall c \<notin> set log)) \<and>
    (\<forall>ce n. err = Some ce \<and> failureCause ce = None \<and> n < length vs \<and>
         passes vd (vs ! n) \<and> (\<forall>i<n. \<not> passes vd (vs ! i)) \<longrightarrow>
       Await vd ctx client =
         (Some None, log @ WatchCall ctx # map (logged vd) (take (Suc n) vs))) \<and>
    (\<forall>ce werr. err = Some ce \<and> failureCause ce = None \<and>
         (\<forall>v\<in>set vs. \<not> passes vd v) \<and> ending = Some werr \<longrightarrow>
       Await vd ctx client =
         (Some (Some \<lparr>validationError.query = validation.query vd,
                      validationErr =
                        (if vs = [] then validationErr ce
                         else fst (validationFn vd (last vs))),
                      failureCause = Some werr\<rparr>),
          log @ WatchCall ctx # map (logged vd) vs))"
proof (intro conjI allI impI)
  assume "err = None"
  with chk show "Await vd ctx client = (Some None, log)"
    by (simp add: Await_eq)
next
  fix c
  from chk Check_log_no_watch [of c vd client] show "WatchCall c \<notin> set log"
    by simp
next
  fix ce
  assume "err = Some ce \<and> failureCause ce \<noteq> None"
  with chk show "Await vd ctx client = (Some (Some ce), log)"
    by (simp add: Await_eq)
next
  fix c
  from chk Check_log_no_watch [of c vd client] show "WatchCall c \<notin> set log"
    by simp
next
  fix ce n
  assume a: "err = Some ce \<and> failureCause ce = None \<and> n < length vs \<and>
         passes vd (vs ! n) \<and> (\<forall>i<n. \<not> passes vd (vs ! i))"
  then have tw: "takeWhile (\<lambda>v. \<not> passes vd v) vs = take n vs"
    by (intro takeWhile_eq_take_P_nth) auto
  then have "dropWhile (\<lambda>v. \<not> passes vd v) vs = drop n vs"
    using a by (simp add: dropWhile_eq_drop)
  also have "\<dots> = vs ! n # drop (Suc n) vs"
    using a by (simp add: Cons_nth_drop_Suc)
  finally have dw: "dropWhile (\<lambda>v. \<not> passes vd v) vs = vs ! n # drop (Suc n) vs" .
  have "take n vs @ [vs ! n] = take (Suc n) vs"
    using a by (simp add: take_Suc_conv_app_nth)
  with a chk ws tw dw
  show "Await vd ctx client =
         (Some None, log @ WatchCall ctx # map (logged vd) (take (Suc n) vs))"
    by (simp add: Await_eq)
next
  fix ce werr
  assume a: "err = Some ce \<and> failureCause ce = None \<and>
         (\<forall>v\<in>set vs. \<not> passes vd v) \<and> ending = Some werr"
  then have "dropWhile (\<lambda>v. \<not> passes vd v) vs = []"
    by simp
  with a chk ws
  show "Await vd ctx client =
         (Some (Some \<lparr>validationError.query = validation.query vd,
                      validationErr =
                        (if vs = [] then validationErr ce
                         else fst (validationFn vd (last vs))),
                      failureCause = Some werr\<rparr>),
          log @ WatchCall ctx # map (logged vd) vs)"
    by (simp add: Await_eq del: dropWhile_eq_Nil_conv)
qed

theorem Await_behaviour_witness:
  "Await (Equal (\<lambda>b. if b then ''true'' else ''false'') \<lparr>pathStruct = Some (PathString ''/up'')\<rparr> True)
     (WithDeadline Background 60)
     \<lparr>lookup_reply = (\<lambda>ctx q. Inr \<lparr>val = False, present = True\<rparr>),
      watch_stream = (\<lambda>ctx q. ([\<lparr>val = False, present = True\<rparr>, \<lparr>val = True, present = True\<rparr>,
                                \<lparr>val = False, present = True\<rparr>], None))\<rparr> =
     (Some None,
      [LookupCall, ValidationFnCall \<lparr>val = False, present = True\<rparr> [False],
       WatchCall (WithDeadline Background 60),
       ValidationFnCall \<lparr>val = False, present = True\<rparr> [False],
       ValidationFnCall \<lparr>val = True, present = True\<rparr> [True]]) \<and>
   Await (Equal (\<lambda>b. if b then ''true'' else ''false'') \<lparr>pathStruct = Some (PathString ''/up'')\<rparr> True)
     (WithDeadline Background 60)
     \<lparr>lookup_reply = (\<lambda>ctx q. Inr \<lparr>val = False, present = False\<rparr>),
      watch_stream = (\<lambda>ctx q. ([\<lparr>val = False, present = True\<rparr>],
                                Some (StatusError DeadlineExceeded ''context deadline exceeded'')))\<rparr> =
     (Some (Some \<lparr>validationError.query = \<lparr>pathStruct = Some (PathString ''/up'')\<rparr>,
                  validationErr = Some (ErrorString ''got false, want true''),
                  failureCause = Some (StatusError DeadlineExceeded ''context deadline exceeded'')\<rparr>),
      [LookupCall, ValidationFnCall \<lparr>val = False, present = False\<rparr> [],
       WatchCall (WithDeadline Background 60),
       ValidationFnCall \<lparr>val = False, present = True\<rparr> [False]])"
proof (intro conjI)
  let ?g = "\<lambda>b. if b then ''true'' else ''false''"
  let ?q = "\<lparr>pathStruct = Some (PathString ''/up'')\<rparr>"
  let ?vd = "Equal ?g ?q True"
  let ?F = "\<lparr>val = False, present = True\<rparr>"
  let ?T = "\<lparr>val = True, present = True\<rparr>"
  let ?N = "\<lparr>val = False, present = False\<rparr>"
  let ?ctx = "WithDeadline Background 60"
  let ?late = "\<lparr>lookup_reply = (\<lambda>ctx q. Inr ?F),
                watch_stream = (\<lambda>ctx q. ([?F, ?T, ?F], None))\<rparr>"
  let ?never = "\<lparr>lookup_reply = (\<lambda>ctx q. Inr ?N),
                 watch_stream = (\<lambda>ctx q. ([?F],
                   Some (StatusError DeadlineExceeded ''context deadline exceeded'')))\<rparr>"
  have fn: "validationFn ?vd ?F = (Some (ErrorString ''got false, want true''), [False])"
    "validationFn ?vd ?T = (None, [True])"
    "validationFn ?vd ?N = (Some (ErrorString ''got no value, want true''), [])"
    by (simp_all add: Equal_def Predicate_fn DeepEqual_def FormatValue_def Val_def)
  have q: "validation.query ?vd = ?q"
    by (simp add: Equal_def query_Predicate)
  have chk1: "Check ?vd ?late =
      (Some \<lparr>validationError.query = ?q,
             validationErr = Some (ErrorString ''got false, want true''),
             failureCause = None\<rparr>,
       [LookupCall, ValidationFnCall ?F [False]])"
    by (simp add: Check_def Lookup_def q fn)
  have chk2: "Check ?vd ?never =
      (Some \<lparr>validationError.query = ?q,
             validationErr = Some (ErrorString ''got no value, want true''),
             failureCause = None\<rparr>,
       [LookupCall, ValidationFnCall ?N []])"
    by (simp add: Check_def Lookup_def q fn)
  show "Await ?vd ?ctx ?late =
     (Some None,
      [LookupCall, ValidationFnCall ?F [False], WatchCall ?ctx,
       ValidationFnCall ?F [False], ValidationFnCall ?T [True]])"
    using Await_behaviour [OF chk1, of ?ctx "[?F, ?T, ?F]" None,
            THEN conjunct2, THEN conjunct2, THEN conjunct1, rule_format, of _ 1]
    by (simp add: q fn passes_def logged_def)
  show "Await ?vd ?ctx ?never =
     (Some (Some \<lparr>validationError.query = ?q,
                  validationErr = Some (ErrorString ''got false, want true''),
                  failureCause = Some (StatusError DeadlineExceeded ''context deadline exceeded'')\<rparr>),
      [LookupCall, ValidationFnCall ?N [], WatchCall ?ctx, ValidationFnCall ?F [False]])"
    using Await_behaviour [OF chk2, of ?ctx "[?F]"
            "Some (StatusError DeadlineExceeded ''context deadline exceeded'')"]
    by (simp add: q fn passes_def logged_def)
qed

text \<open>
  Claim C10. Every error Await returns has its failure cause set. An error of the
  watch, which Await enters only after a lookup whose value failed validation, has its
  validation error set too, so that a timeout there is reported as the validation error
  with the suffix "(deadline exceeded)". The message "deadline exceeded before any
  values were fetched" is the one of a timeout with no validation error: an error of
  Await of that kind is the error of Check, made from a lookup that failed with a
  timeout.
\<close>

theorem Await_error_causes:
  assumes aw: "fst (Await vd ctx client) = Some (Some e)"
  shows
   "failureCause e \<noteq> None \<and>
    (\<forall>ce. fst (Check vd client) = Some ce \<and> failureCause ce = None \<longrightarrow>
       validationErr e \<noteq> None \<and>
       (isTimeout (failureCause e) \<longrightarrow>
          Error e = qStr e @ '': '' @ error_text (the (validationErr e))
                      @ '' (deadline exceeded)'')) \<and>
    (isTimeout (failureCause e) \<and> validationErr e = None \<longrightarrow>
       fst (Check vd client) = Some e \<and>
       (\<exists>err. Lookup Background client (validation.query vd) = Inl err \<and>
              isTimeout (Some err)))"
proof -
  from Await_error_shape [OF aw]
  consider (fetch) "fst (Check vd client) = Some e" "failureCause e \<noteq> None"
    | (watch) ce where "fst (Check vd client) = Some ce" "failureCause ce = None"
        "failureCause e \<noteq> None" "validationErr e \<noteq> None"
    by blast
  then show ?thesis
  proof cases
    case fetch
    with Check_error_shape [of vd client e] show ?thesis
      by auto
  next
    case watch
    then show ?thesis
      by (auto simp add: Error_def)
  qed
qed

theorem Await_error_causes_witness:
  "fst (Await (Equal (\<lambda>b. if b then ''true'' else ''false'') \<lparr>pathStruct = Some (PathString ''/up'')\<rparr> True)
         (WithDeadline Background 60)
         \<lparr>lookup_reply = (\<lambda>ctx q. Inr \<lparr>val = False, present = True\<rparr>),
          watch_stream = (\<lambda>ctx q. ([\<lparr>val = False, present = True\<rparr>],
             Some (StatusError DeadlineExceeded ''context deadline exceeded'')))\<rparr>) =
     Some (Some \<lparr>validationError.query = \<lparr>pathStruct = Some (PathString ''/up'')\<rparr>,
                 validationErr = Some (ErrorString ''got false, want true''),
                 failureCause = Some (StatusError DeadlineExceeded ''context deadline exceeded'')\<rparr>) \<and>
   Error \<lparr>validationError.query = \<lparr>pathStruct = Some (PathString ''/up'')\<rparr>,
          validationErr = Some (ErrorString ''got false, want true''),
          failureCause = Some (StatusError DeadlineExceeded ''context deadline exceeded'')\<rparr> =
     ''/up: got false, want true (deadline exceeded)''"
proof -
  let ?g = "\<lambda>b. if b then ''true'' else ''false''"
  let ?q = "\<lparr>pathStruct = Some (PathString ''/up'')\<rparr>"
  let ?vd = "Equal ?g ?q True"
  let ?F = "\<lparr>val = False, present = True\<rparr>"
  let ?ctx = "WithDeadline Background 60"
  let ?c = "\<lparr>lookup_reply = (\<lambda>ctx q. Inr ?F),
             watch_stream = (\<lambda>ctx q. ([?F],
               Some (StatusError DeadlineExceeded ''context deadline exceeded'')))\<rparr>"
  let ?e = "\<lparr>validationError.query = ?q,
             validationErr = Some (ErrorString ''got false, want true''),
             failureCause = Some (StatusError DeadlineExceeded ''context deadline exceeded'')\<rparr>"
  have fn: "validationFn ?vd ?F = (Some (ErrorString ''got false, want true''), [False])"
    by (simp add: Equal_def Predicate_fn DeepEqual_def FormatValue_def Val_def)
  have q: "validation.query ?vd = ?q"
    by (simp add: Equal_def query_Predicate)
  have chk: "Check ?vd ?c =
      (Some \<lparr>validationError.query = ?q,
             validationErr = Some (ErrorString ''got false, want true''),
             failureCause = None\<rparr>,
       [LookupCall, ValidationFnCall ?F [False]])"
    by (simp add: Check_def Lookup_def q fn)
  have aw: "fst (Await ?vd ?ctx ?c) = Some (Some ?e)"
    by (simp add: Await_def chk Watch_def Await_callback_def fn q)
  from Await_error_causes [OF aw] chk
  have "Error ?e = ''/up: got false, want true (deadline exceeded)''"
    by (simp add: isTimeout_def qStr_def)
  with aw show ?thesis by simp
qed

subsection \<open>AwaitFor and AwaitUntil\<close>

text \<open>
  Claim C4. With a timeout of zero or less, AwaitFor returns what Check returns, result
  and log alike; with a positive timeout it calls Await under a context whose deadline
  is the timeout after now.
\<close>

theorem AwaitFor_cases:
  "(sint timeout \<le> 0 \<longrightarrow> AwaitFor vd now timeout client = returned (Check vd client)) \<and>
   (0 < sint timeout \<longrightarrow>
      AwaitFor vd now timeout client =
        Await vd (WithDeadline Background (now + sint timeout)) client)"
  by (simp add: AwaitFor_def WithTimeout_def Add_def)

theorem AwaitFor_cases_witness:
  "AwaitFor (Present (\<lambda>b. if b then ''true'' else ''false'') \<lparr>pathStruct = Some (PathString ''/up'')\<rparr>)
     1000 0
     \<lparr>lookup_reply = (\<lambda>ctx q. Inr \<lparr>val = False, present = False\<rparr>),
      watch_stream = (\<lambda>ctx q. ([\<lparr>val = True, present = True\<rparr>], None))\<rparr> =
   returned
     (Check (Present (\<lambda>b. if b then ''true'' else ''false'') \<lparr>pathStruct = Some (PathString ''/up'')\<rparr>)
        \<lparr>lookup_reply = (\<lambda>ctx q. Inr \<lparr>val = False, present = False\<rparr>),
         watch_stream = (\<lambda>ctx q. ([\<lparr>val = True, present = True\<rparr>], None))\<rparr>) \<and>
   AwaitFor (Present (\<lambda>b. if b then ''true'' else ''false'') \<lparr>pathStruct = Some (PathString ''/up'')\<rparr>)
     1000 (- 5)
     \<lparr>lookup_reply = (\<lambda>ctx q. Inr \<lparr>val = False, present = False\<rparr>),
      watch_stream = (\<lambda>ctx q. ([\<lparr>val = True, present = True\<rparr>], None))\<rparr> =
   returned
     (Check (Present (\<lambda>b. if b then ''true'' else ''false'') \<lparr>pathStruct = Some (PathString ''/up'')\<rparr>)
        \<lparr>lookup_reply = (\<lambda>ctx q. Inr \<lparr>val = False, present = False\<rparr>),
         watch_stream = (\<lambda>ctx q. ([\<lparr>val = True, present = True\<rparr>], None))\<rparr>) \<and>
   AwaitFor (Present (\<lambda>b. if b then ''true'' else ''false'') \<lparr>pathStruct = Some (PathString ''/up'')\<rparr>)
     1000 5
     \<lparr>lookup_reply = (\<lambda>ctx q. Inr \<lparr>val = False, present = False\<rparr>),
      watch_stream = (\<lambda>ctx q. ([\<lparr>val = True, present = True\<rparr>], None))\<rparr> =
   Await (Present (\<lambda>b. if b then ''true'' else ''false'') \<lparr>pathStruct = Some (PathString ''/up'')\<rparr>)
     (WithDeadline Background 1005)
     \<lparr>lookup_reply = (\<lambda>ctx q. Inr \<lparr>val = False, present = False\<rparr>),
      watch_stream = (\<lambda>ctx q. ([\<lparr>val = True, present = True\<rparr>], None))\<rparr>"
proof (intro conjI)
  let ?vd = "Present (\<lambda>b. if b then ''true'' else ''false'')
               \<lparr>pathStruct = Some (PathString ''/up'')\<rparr>"
  let ?c = "\<lparr>lookup_reply = (\<lambda>ctx q. Inr \<lparr>val = False, present = False\<rparr>),
             watch_stream = (\<lambda>ctx q. ([\<lparr>val = True, present = True\<rparr>], None))\<rparr>"
  show "AwaitFor ?vd 1000 0 ?c = returned (Check ?vd ?c)"
    using AwaitFor_cases [of 0 ?vd 1000 ?c] by simp
  show "AwaitFor ?vd 1000 (- 5) ?c = returned (Check ?vd ?c)"
    using AwaitFor_cases [of "- 5" ?vd 1000 ?c] by simp
  show "AwaitFor ?vd 1000 5 ?c = Await ?vd (WithDeadline Background 1005) ?c"
    using AwaitFor_cases [of 5 ?vd 1000 ?c] by simp
qed

text \<open>
  Claim C3, as the code has it. With a deadline before now, AwaitUntil returns what
  Check returns, result and log alike; with a deadline at or after now it calls Await
  under a context with that deadline. The test is \<^verbatim>\<open>deadline.Before(time.Now())\<close>,
  so a deadline equal to now goes to Await.
\<close>

theorem AwaitUntil_cases:
  "(deadline < now \<longrightarrow> AwaitUntil vd now deadline client = returned (Check vd client)) \<and>
   (now \<le> deadline \<longrightarrow>
      AwaitUntil vd now deadline client =
        Await vd (WithDeadline Background deadline) client)"
  by (simp add: AwaitUntil_def Before_def)

theorem AwaitUntil_cases_witness:
  "AwaitUntil (Present (\<lambda>b. if b then ''true'' else ''false'') \<lparr>pathStruct = Some (PathString ''/up'')\<rparr>)
     1000 999
     \<lparr>lookup_reply = (\<lambda>ctx q. Inr \<lparr>val = False, present = False\<rparr>),
      watch_stream = (\<lambda>ctx q. ([\<lparr>val = True, present = True\<rparr>], None))\<rparr> =
   returned
     (Check (Present (\<lambda>b. if b then ''true'' else ''false'') \<lparr>pathStruct = Some (PathString ''/up'')\<rparr>)
        \<lparr>lookup_reply = (\<lambda>ctx q. Inr \<lparr>val = False, present = False\<rparr>),
         watch_stream = (\<lambda>ctx q. ([\<lparr>val = True, present = True\<rparr>], None))\<rparr>) \<and>
   AwaitUntil (Present (\<lambda>b. if b then ''true'' else ''false'') \<lparr>pathStruct = Some (PathString ''/up'')\<rparr>)
     1000 1000
     \<lparr>lookup_reply = (\<lambda>ctx q. Inr \<lparr>val = False, present = False\<rparr>),
      watch_stream = (\<lambda>ctx q. ([\<lparr>val = True, present = True\<rparr>], None))\<rparr> =
   Await (Present (\<lambda>b. if b then ''true'' else ''false'') \<lparr>pathStruct = Some (PathString ''/up'')\<rparr>)
     (WithDeadline Background 1000)
     \<lparr>lookup_reply = (\<lambda>ctx q. Inr \<lparr>val = False, present = False\<rparr>),
      watch_stream = (\<lambda>ctx q. ([\<lparr>val = True, present = True\<rparr>], None))\<rparr>"
proof (intro conjI)
  let ?vd = "Present (\<lambda>b. if b then ''true'' else ''false'')
               \<lparr>pathStruct = Some (PathString ''/up'')\<rparr>"
  let ?c = "\<lparr>lookup_reply = (\<lambda>ctx q. Inr \<lparr>val = False, present = False\<rparr>),
             watch_stream = (\<lambda>ctx q. ([\<lparr>val = True, present = True\<rparr>], None))\<rparr>"
  show "AwaitUntil ?vd 1000 999 ?c = returned (Check ?vd ?c)"
    using AwaitUntil_cases [of 999 1000 ?vd ?c] by simp
  show "AwaitUntil ?vd 1000 1000 ?c = Await ?vd (WithDeadline Background 1000) ?c"
    using AwaitUntil_cases [of 1000 1000 ?vd ?c] by simp
qed

text \<open>
  In the watch Await returns nil or an error with a failure cause, and the error of
  Check that led there has none: wherever Check reports a validation failure, Await
  does not return the result of Check.
\<close>

lemma Await_watch_phase_differs:
  assumes "fst (Check vd client) = Some ce" and "failureCause ce = None"
  shows "fst (Await vd ctx client) \<noteq> Some (Some ce)"
  using assms Await_error_shape [of vd ctx client ce] by auto

lemma AwaitUntil_at_now_differs:
  assumes "fst (Check vd client) = Some ce" and "failureCause ce = None"
  shows "AwaitUntil vd now now client \<noteq> returned (Check vd client)"
  using Await_watch_phase_differs [OF assms, of "WithDeadline Background now"] assms(1)
  by (auto simp add: AwaitUntil_def Before_def returned_def)

text \<open>
  With the deadline equal to now, AwaitUntil does not return what Check returns: the
  value is absent, the validator wants it present, and the watch under the expired
  context ends at once with a deadline error. Check reports the validation error alone;
  AwaitUntil opens the watch and reports the deadline error as failure cause as well.
\<close>

theorem AwaitUntil_at_now_counterexample:
  "AwaitUntil (Present (\<lambda>b. if b then ''true'' else ''false'') \<lparr>pathStruct = Some (PathString ''/up'')\<rparr>)
     1000 1000
     \<lparr>lookup_reply = (\<lambda>ctx q. Inr \<lparr>val = False, present = False\<rparr>),
      watch_stream = (\<lambda>ctx q. ([], Some (StatusError DeadlineExceeded ''context deadline exceeded'')))\<rparr> =
     (Some (Some \<lparr>validationError.query = \<lparr>pathStruct = Some (PathString ''/up'')\<rparr>,
                  validationErr = Some (ErrorString ''got no value, want any value''),
                  failureCause = Some (StatusError DeadlineExceeded ''context deadline exceeded'')\<rparr>),
      [LookupCall, ValidationFnCall \<lparr>val = False, present = False\<rparr> [],
       WatchCall (WithDeadline Background 1000)]) \<and>
   returned
     (Check (Present (\<lambda>b. if b then ''true'' else ''false'') \<lparr>pathStruct = Some (PathString ''/up'')\<rparr>)
        \<lparr>lookup_reply = (\<lambda>ctx q. Inr \<lparr>val = False, present = False\<rparr>),
         watch_stream = (\<lambda>ctx q. ([], Some (StatusError DeadlineExceeded ''context deadline exceeded'')))\<rparr>) =
     (Some (Some \<lparr>validationError.query = \<lparr>pathStruct = Some (PathString ''/up'')\<rparr>,
                  validationErr = Some (ErrorString ''got no value, want any value''),
                  failureCause = None\<rparr>),
      [LookupCall, ValidationFnCall \<lparr>val = False, present = False\<rparr> []]) \<and>
   AwaitUntil (Present (\<lambda>b. if b then ''true'' else ''false'') \<lparr>pathStruct = Some (PathString ''/up'')\<rparr>)
     1000 1000
     \<lparr>lookup_reply = (\<lambda>ctx q. Inr \<lparr>val = False, present = False\<rparr>),
      watch_stream = (\<lambda>ctx q. ([], Some (StatusError DeadlineExceeded ''context deadline exceeded'')))\<rparr> \<noteq>
   returned
     (Check (Present (\<lambda>b. if b then ''true'' else ''false'') \<lparr>pathStruct = Some (PathString ''/up'')\<rparr>)
        \<lparr>lookup_reply = (\<lambda>ctx q. Inr \<lparr>val = False, present = False\<rparr>),
         watch_stream = (\<lambda>ctx q. ([], Some (StatusError DeadlineExceeded ''context deadline exceeded'')))\<rparr>)"
proof -
  let ?vd = "Present (\<lambda>b. if b then ''true'' else ''false'')
               \<lparr>pathStruct = Some (PathString ''/up'')\<rparr>"
  let ?N = "\<lparr>val = False, present = False\<rparr>"
  have fn: "validationFn ?vd ?N = (Some (ErrorString ''got no value, want any value''), [])"
    by (simp add: Present_def Predicate_fn FormatValue_def Val_def)
  have q: "validation.query ?vd = \<lparr>pathStruct = Some (PathString ''/up'')\<rparr>"
    by (simp add: Present_def query_Predicate)
  show ?thesis
    by (simp add: AwaitUntil_def Before_def returned_def Await_def Check_def Lookup_def
          Watch_def fn q)
qed

subsection \<open>Predicate, NotEqual, EqualOrNil, Present and NotPresent\<close>

text \<open>
  Claim C6. A validator built by Predicate fails on an absent value with the error "got
  " followed by the formatted value, ", " and the want message, and without invoking
  the predicate function: the list of the values it was invoked on is empty. So when the
  lookup returns a value, Check of NotEqual returns nil exactly when the value is
  present and not deeply equal to the unwanted one; it fails on an absent value and on
  a present value deeply equal to the unwanted one.
\<close>

theorem Predicate_requires_presence:
  "(\<not> present v \<longrightarrow>
      validationFn (Predicate g q wantMsg predicate) v =
        (Some (ErrorString (''got '' @ FormatValue g (Some v) @ '', '' @ wantMsg)), [])) \<and>
   (\<forall>w. Lookup Background client q = Inr w \<longrightarrow>
      (fst (Check (NotEqual g q wantNot) client) = None) =
        (present w \<and> \<not> DeepEqual (val w) wantNot))"
  by (simp add: Predicate_fn NotEqual_def Check_eq query_Predicate passes_def)

theorem Predicate_requires_presence_witness:
  "validationFn (Predicate (\<lambda>b. if b then ''true'' else ''false'')
       \<lparr>pathStruct = Some (PathString ''/up'')\<rparr> ''want it up'' (\<lambda>b. b))
     \<lparr>val = True, present = False\<rparr> =
     (Some (ErrorString ''got no value, want it up''), []) \<and>
   fst (Check (NotEqual (\<lambda>b. if b then ''true'' else ''false'')
                 \<lparr>pathStruct = Some (PathString ''/up'')\<rparr> False)
          \<lparr>lookup_reply = (\<lambda>ctx q. Inr \<lparr>val = True, present = False\<rparr>),
           watch_stream = (\<lambda>ctx q. ([], None))\<rparr>) \<noteq> None \<and>
   fst (Check (NotEqual (\<lambda>b. if b then ''true'' else ''false'')
                 \<lparr>pathStruct = Some (PathString ''/up'')\<rparr> False)
          \<lparr>lookup_reply = (\<lambda>ctx q. Inr \<lparr>val = False, present = True\<rparr>),
           watch_stream = (\<lambda>ctx q. ([], None))\<rparr>) \<noteq> None \<and>
   fst (Check (NotEqual (\<lambda>b. if b then ''true'' else ''false'')
                 \<lparr>pathStruct = Some (PathString ''/up'')\<rparr> False)
          \<lparr>lookup_reply = (\<lambda>ctx q. Inr \<lparr>val = True, present = True\<rparr>),
           watch_stream = (\<lambda>ctx q. ([], None))\<rparr>) = None"
proof (intro conjI)
  let ?g = "\<lambda>b. if b then ''true'' else ''false''"
  let ?q = "\<lparr>pathStruct = Some (PathString ''/up'')\<rparr>"
  show "validationFn (Predicate ?g ?q ''want it up'' (\<lambda>b. b)) \<lparr>val = True, present = False\<rparr> =
     (Some (ErrorString ''got no value, want it up''), [])"
    using Predicate_requires_presence
            [where v = "\<lparr>val = True, present = False\<rparr>" and g = ?g and q = ?q
               and wantMsg = "''want it up''" and predicate = "\<lambda>b. b"]
    by (simp add: FormatValue_def Val_def)
  show "fst (Check (NotEqual ?g ?q False)
          \<lparr>lookup_reply = (\<lambda>ctx q. Inr \<lparr>val = True, present = False\<rparr>),
           watch_stream = (\<lambda>ctx q. ([], None))\<rparr>) \<noteq> None"
    using Predicate_requires_presence
            [where q = ?q and g = ?g and wantNot = False
               and client = "\<lparr>lookup_reply = (\<lambda>ctx q. Inr \<lparr>val = True, present = False\<rparr>),
                            watch_stream = (\<lambda>ctx q. ([], None))\<rparr>"]
    by (simp add: Lookup_def)
  show "fst (Check (NotEqual ?g ?q False)
          \<lparr>lookup_reply = (\<lambda>ctx q. Inr \<lparr>val = False, present = True\<rparr>),
           watch_stream = (\<lambda>ctx q. ([], None))\<rparr>) \<noteq> None"
    using Predicate_requires_presence
            [where q = ?q and g = ?g and wantNot = False
               and client = "\<lparr>lookup_reply = (\<lambda>ctx q. Inr \<lparr>val = False, present = True\<rparr>),
                            watch_stream = (\<lambda>ctx q. ([], None))\<rparr>"]
    by (simp add: Lookup_def DeepEqual_def)
  show "fst (Check (NotEqual ?g ?q False)
          \<lparr>lookup_reply = (\<lambda>ctx q. Inr \<lparr>val = True, present = True\<rparr>),
           watch_stream = (\<lambda>ctx q. ([], None))\<rparr>) = None"
    using Predicate_requires_presence
            [where q = ?q and g = ?g and wantNot = False
               and client = "\<lparr>lookup_reply = (\<lambda>ctx q. Inr \<lparr>val = True, present = True\<rparr>),
                            watch_stream = (\<lambda>ctx q. ([], None))\<rparr>"]
    by (simp add: Lookup_def DeepEqual_def)
qed

text \<open>
  Claim C7. The validation function of EqualOrNil returns nil on an absent value and on
  a present value deeply equal to the wanted one; on a present value that is not, it
  returns the error "got " followed by the value, ", want ", the wanted value and " or
  no value".
\<close>

theorem EqualOrNil_validation:
  "fst (validationFn (EqualOrNil g q want) v) =
     (if present v \<and> \<not> DeepEqual (val v) want then
        Some (ErrorString (''got '' @ g (val v) @ '', want '' @ g want @ '' or no value''))
      else None)"
  by (simp add: EqualOrNil_def Val_def FormatValue_def)

text \<open>
  Claim C8. On every value, the validation function of Present returns nil exactly when
  the value is present, whatever it holds, and the one of NotPresent exactly when the
  value is absent: exactly one of the two returns nil.
\<close>

theorem Present_NotPresent_exclusive:
  "(fst (validationFn (Present g q) v) = None) = present v \<and>
   (fst (validationFn (NotPresent g q) v) = None) = (\<not> present v) \<and>
   (fst (validationFn (Present g q) v) = None) \<noteq>
     (fst (validationFn (NotPresent g q) v) = None)"
  by (simp add: Present_def Predicate_fn NotPresent_def IsPresent_def)

subsection \<open>UnorderedEqual\<close>

lemma mset_sort_insert: "mset (sort_insert lessFn x xs) = add_mset x (mset xs)"
  by (induction xs) simp_all

lemma mset_SortSlices: "mset (SortSlices lessFn xs) = mset xs"
  by (induction xs) (simp_all add: mset_sort_insert)

lemma length_SortSlices: "length (SortSlices lessFn xs) = length xs"
proof -
  have "size (mset (SortSlices lessFn xs)) = size (mset xs)"
    by (simp add: mset_SortSlices)
  then show ?thesis by simp
qed

lemma set_sort_insert: "set (sort_insert lessFn x xs) = insert x (set xs)"
proof -
  have "set_mset (mset (sort_insert lessFn x xs)) = set_mset (add_mset x (mset xs))"
    by (simp only: mset_sort_insert)
  then show ?thesis by simp
qed

lemma sorted_sort_insert:
  assumes ord: "strict_total_order lessFn"
    and srt: "sorted_wrt (\<lambda>a b. \<not> lessFn b a) xs"
  shows "sorted_wrt (\<lambda>a b. \<not> lessFn b a) (sort_insert lessFn x xs)"
  using srt
proof (induction xs)
  case Nil
  show ?case by simp
next
  case (Cons y ys)
  from ord have irr: "\<And>a. \<not> lessFn a a"
    and tr: "\<And>a b c. lessFn a b \<Longrightarrow> lessFn b c \<Longrightarrow> lessFn a c"
    and tot: "\<And>a b. a = b \<or> lessFn a b \<or> lessFn b a"
    unfolding strict_total_order_def by blast+
  show ?case
  proof (cases "lessFn y x")
    case True
    then have "\<not> lessFn x y" using irr tr by blast
    with True Cons show ?thesis
      by (auto simp add: set_sort_insert)
  next
    case False
    have "\<not> lessFn z x" if "z \<in> set ys" for z
    proof -
      from that Cons.prems have "\<not> lessFn z y" by simp
      with False show ?thesis using tot [of z y] tot [of y x] tr irr by metis
    qed
    with False Cons.prems show ?thesis by auto
  qed
qed

lemma sorted_SortSlices:
  "strict_total_order lessFn \<Longrightarrow> sorted_wrt (\<lambda>a b. \<not> lessFn b a) (SortSlices lessFn xs)"
  by (induction xs) (simp_all add: sorted_sort_insert)

lemma sorted_mset_unique:
  assumes ord: "strict_total_order lessFn"
  shows "sorted_wrt (\<lambda>a b. \<not> lessFn b a) xs \<Longrightarrow> sorted_wrt (\<lambda>a b. \<not> lessFn b a) ys
           \<Longrightarrow> mset xs = mset ys \<Longrightarrow> xs = ys"
proof (induction xs arbitrary: ys)
  case Nil
  then show ?case by simp
next
  case (Cons x xs)
  from ord have irr: "\<And>a. \<not> lessFn a a"
    and tot: "\<And>a b. a = b \<or> lessFn a b \<or> lessFn b a"
    unfolding strict_total_order_def by blast+
  from Cons.prems(3) obtain y ys' where ys: "ys = y # ys'"
    by (cases ys) auto
  have "x \<in> set ys" using Cons.prems(3) by (metis list.set_intros(1) set_mset_mset)
  then have xy: "\<not> lessFn x y" using Cons.prems(2) ys irr by auto
  have "y \<in> set (x # xs)" using Cons.prems(3) ys by (metis list.set_intros(1) set_mset_mset)
  then have yx: "\<not> lessFn y x" using Cons.prems(1) irr by auto
  from xy yx tot [of x y] have "x = y" by blast
  with Cons ys show ?case by simp
qed

lemma SortSlices_eq_iff_mset:
  assumes "strict_total_order lessFn"
  shows "(SortSlices lessFn xs = SortSlices lessFn ys) = (mset xs = mset ys)"
proof
  assume "SortSlices lessFn xs = SortSlices lessFn ys"
  then have "mset (SortSlices lessFn xs) = mset (SortSlices lessFn ys)" by simp
  then show "mset xs = mset ys" by (simp add: mset_SortSlices)
next
  assume "mset xs = mset ys"
  then have "mset (SortSlices lessFn xs) = mset (SortSlices lessFn ys)"
    by (simp add: mset_SortSlices)
  with assms show "SortSlices lessFn xs = SortSlices lessFn ys"
    by (intro sorted_mset_unique [OF assms] sorted_SortSlices)
qed

text \<open>
  Claim C9, as the code has it. For a less function that is a strict ordering, and on a
  present sequence, the validation function of UnorderedEqual returns nil exactly when
  the sequence and the wanted one are equal once both are sorted by the less function,
  and it fails on a sequence of another length. When the strict ordering is moreover
  total, it returns nil exactly when the two sequences hold the same elements the same
  number of times, so every permutation of the wanted sequence passes.
\<close>

theorem UnorderedEqual_validation:
  assumes pres: "present v"
    and ord: "strict_ordering lessFn"
  shows
   "((fst (validationFn (UnorderedEqual g q want lessFn) v) = None) =
       (SortSlices lessFn (val v) = SortSlices lessFn want)) \<and>
    (strict_total_order lessFn \<longrightarrow>
       (fst (validationFn (UnorderedEqual g q want lessFn) v) = None) =
         (mset (val v) = mset want)) \<and>
    (length (val v) \<noteq> length want \<longrightarrow>
       fst (validationFn (UnorderedEqual g q want lessFn) v) \<noteq> None)"
proof -
  have eq: "(fst (validationFn (UnorderedEqual g q want lessFn) v) = None) =
       (SortSlices lessFn (val v) = SortSlices lessFn want)"
    using pres by (simp add: UnorderedEqual_def Predicate_fn cmp_Equal_SortSlices_def)
  have len: "SortSlices lessFn (val v) \<noteq> SortSlices lessFn want"
    if "length (val v) \<noteq> length want"
    using that length_SortSlices [of lessFn "val v"] length_SortSlices [of lessFn want]
    by auto
  show ?thesis
    using eq len by (auto simp add: SortSlices_eq_iff_mset)
qed

theorem UnorderedEqual_validation_witness:
  "fst (validationFn (UnorderedEqual (\<lambda>xs. ''[]int{...}'') \<lparr>pathStruct = Some (PathString ''/ids'')\<rparr>
          [3, 1, 2 :: int] (<))
        \<lparr>val = [1, 2, 3], present = True\<rparr>) = None \<and>
   fst (validationFn (UnorderedEqual (\<lambda>xs. ''[]int{...}'') \<lparr>pathStruct = Some (PathString ''/ids'')\<rparr>
          [3, 1, 2 :: int] (<))
        \<lparr>val = [2, 3, 1], present = True\<rparr>) = None \<and>
   fst (validationFn (UnorderedEqual (\<lambda>xs. ''[]int{...}'') \<lparr>pathStruct = Some (PathString ''/ids'')\<rparr>
          [3, 1, 2 :: int] (<))
        \<lparr>val = [1, 2], present = True\<rparr>) \<noteq> None"
proof (intro conjI)
  let ?vd = "UnorderedEqual (\<lambda>xs. ''[]int{...}'') \<lparr>pathStruct = Some (PathString ''/ids'')\<rparr>
          [3, 1, 2 :: int] (<)"
  have ord: "strict_total_order ((<) :: int \<Rightarrow> int \<Rightarrow> bool)"
    by (auto simp add: strict_total_order_def)
  have strict: "strict_ordering ((<) :: int \<Rightarrow> int \<Rightarrow> bool)"
    by (auto simp add: strict_ordering_def)
  show "fst (validationFn ?vd \<lparr>val = [1, 2, 3], present = True\<rparr>) = None"
    using UnorderedEqual_validation
            [where v = "\<lparr>val = [1, 2, 3 :: int], present = True\<rparr>" and g = "\<lambda>xs. ''[]int{...}''"
               and q = "\<lparr>pathStruct = Some (PathString ''/ids'')\<rparr>"
               and want = "[3, 1, 2]" and lessFn = "(<)"] ord strict
    by simp
  show "fst (validationFn ?vd \<lparr>val = [2, 3, 1], present = True\<rparr>) = None"
    using UnorderedEqual_validation
            [where v = "\<lparr>val = [2, 3, 1 :: int], present = True\<rparr>" and g = "\<lambda>xs. ''[]int{...}''"
               and q = "\<lparr>pathStruct = Some (PathString ''/ids'')\<rparr>"
               and want = "[3, 1, 2]" and lessFn = "(<)"] ord strict
    by simp
  show "fst (validationFn ?vd \<lparr>val = [1, 2], present = True\<rparr>) \<noteq> None"
    using UnorderedEqual_validation
            [where v = "\<lparr>val = [1, 2 :: int], present = True\<rparr>" and g = "\<lambda>xs. ''[]int{...}''"
               and q = "\<lparr>pathStruct = Some (PathString ''/ids'')\<rparr>"
               and want = "[3, 1, 2]" and lessFn = "(<)"] strict
    by simp
qed

text \<open>
  Comparing pairs by their first component is a strict ordering, but leaves pairs with
  the same first component incomparable: it is not total.
\<close>

lemma less_by_first_strict:
  "strict_ordering (\<lambda>a b :: int \<times> int. fst a < fst b) \<and>
   \<not> strict_total_order (\<lambda>a b :: int \<times> int. fst a < fst b)"
proof -
  have "\<not> strict_total_order (\<lambda>a b :: int \<times> int. fst a < fst b)"
  proof
    assume "strict_total_order (\<lambda>a b :: int \<times> int. fst a < fst b)"
    then have "(1 :: int, 0 :: int) = (1, 1) \<or> fst (1 :: int, 0 :: int) < fst (1 :: int, 1 :: int)
        \<or> fst (1 :: int, 1 :: int) < fst (1 :: int, 0 :: int)"
      unfolding strict_total_order_def by blast
    then show False by simp
  qed
  then show ?thesis by (auto simp add: strict_ordering_def)
qed

text \<open>
  Under that less function a permutation of the wanted sequence fails: both sequences
  are sorted already, the stable sort leaves them as they are, and they differ.
\<close>

theorem UnorderedEqual_permutation_counterexample:
  "mset [(1, 1), (1, 0 :: int)] = mset [(1 :: int, 0), (1, 1)] \<and>
   fst (validationFn
          (UnorderedEqual (\<lambda>xs. ''[]pair{...}'') \<lparr>pathStruct = Some (PathString ''/ids'')\<rparr>
             [(1 :: int, 0 :: int), (1, 1)] (\<lambda>a b. fst a < fst b))
          \<lparr>val = [(1, 1), (1, 0)], present = True\<rparr>) =
     Some (ErrorString ''got []pair{...}, want []pair{...}'')"
  by (simp add: UnorderedEqual_def Predicate_def Validate_def Val_def FormatValue_def
        cmp_Equal_SortSlices_def)

end
